theory Spec2Isabelle
  imports Main "HOL-Library.Word"
begin

section \<open>The contact form of \<^verbatim>\<open>src/components/ContactForm.tsx\<close>\<close>

text \<open>
  The component validates three text fields with a zod schema, posts the validated
  data to \<^verbatim>\<open>/api/send-email\<close>, shows a status banner and hides it again with a timer.
  The embedding follows the source statement by statement. What the source takes from
  its libraries and from the browser (zod's checks, react-hook-form's
  \<^verbatim>\<open>handleSubmit\<close> and \<^verbatim>\<open>reset\<close>, \<^verbatim>\<open>fetch\<close>, \<^verbatim>\<open>setTimeout\<close>,
  \<^verbatim>\<open>JSON.stringify\<close>, the \<^verbatim>\<open>disabled\<close> attribute) is written out where it is used,
  each with a comment that says so.
\<close>

subsection \<open>Strings\<close>

text \<open>
  A JavaScript string is a sequence of UTF-16 code units and \<^verbatim>\<open>.length\<close> counts
  code units, so a string is a list of 16-bit words and its length is the list's length.
  \<open>str\<close> reads an ASCII literal; a character beyond ASCII is written as its code unit.
\<close>

type_synonym jsstring = "16 word list"

definition str :: "string \<Rightarrow> jsstring" where
  "str cs = map of_char cs"

subsection \<open>The schema (lines 8-15)\<close>

text \<open>The keys of \<^verbatim>\<open>contactFormSchema\<close>, and the data it describes.\<close>

datatype field = Name | Email | Message

record ContactFormData =
  name :: jsstring
  email :: jsstring
  message :: jsstring

fun get_value :: "field \<Rightarrow> ContactFormData \<Rightarrow> jsstring" where
  "get_value Name d = name d"
| "get_value Email d = email d"
| "get_value Message d = message d"

fun set_value :: "field \<Rightarrow> jsstring \<Rightarrow> ContactFormData \<Rightarrow> ContactFormData" where
  "set_value Name v d = d\<lparr>name := v\<rparr>"
| "set_value Email v d = d\<lparr>email := v\<rparr>"
| "set_value Message v d = d\<lparr>message := v\<rparr>"

text \<open>
  The two string checks the schema uses, each with its message:
  \<^verbatim>\<open>z.string().min(n, { message })\<close> and \<^verbatim>\<open>z.string().email({ message })\<close>.
\<close>

datatype check = Min nat jsstring | EmailCheck jsstring

type_synonym schema = "(field \<times> check list) list"

definition nameMessage :: jsstring where
  "nameMessage = str ''O nome precisa ter no m'' @ [0xED] @ str ''nimo 3 caracteres.''"

definition emailMessage :: jsstring where
  "emailMessage = str ''Por favor, insira um email v'' @ [0xE1] @ str ''lido.''"

definition messageMessage :: jsstring where
  "messageMessage =
     str ''A mensagem precisa ter no m'' @ [0xED] @ str ''nimo 10 caracteres.''"

definition contactFormSchema :: schema where
  "contactFormSchema =
     [(Name, [Min 3 nameMessage]),
      (Email, [EmailCheck emailMessage]),
      (Message, [Min 10 messageMessage])]"

subsection \<open>Validation: zod's parse and the resolver (line 24)\<close>

text \<open>
  zod reports a failed check as an issue: the path of the key, a code and the check's
  message. A \<^verbatim>\<open>min\<close> check fails when \<^verbatim>\<open>input.length < value\<close> (code
  \<^verbatim>\<open>too_small\<close>); an \<^verbatim>\<open>email\<close> check fails when the library's email pattern does
  not match (code \<^verbatim>\<open>invalid_string\<close>). The pattern is a constant of the zod package
  and not part of this repository: it is the parameter \<open>emailRegex\<close> of every function
  that validates.
\<close>

datatype issue_code = too_small | invalid_string

record issue =
  path :: field
  code :: issue_code
  issue_message :: jsstring

fun run_check :: "(jsstring \<Rightarrow> bool) \<Rightarrow> field \<Rightarrow> jsstring \<Rightarrow> check \<Rightarrow> issue list" where
  "run_check emailRegex f v (Min n m) =
     (if length v < n then [\<lparr>path = f, code = too_small, issue_message = m\<rparr>] else [])"
| "run_check emailRegex f v (EmailCheck m) =
     (if \<not> emailRegex v then [\<lparr>path = f, code = invalid_string, issue_message = m\<rparr>]
      else [])"

text \<open>
  An object schema parses every key in the order of its shape and collects the issues
  of all of them; a string schema runs its checks in order. The parse succeeds, with the
  data as its output, when no issue was added.
\<close>

definition parse_key ::
  "(jsstring \<Rightarrow> bool) \<Rightarrow> ContactFormData \<Rightarrow> field \<times> check list \<Rightarrow> issue list" where
  "parse_key emailRegex d kc = concat (map (run_check emailRegex (fst kc) (get_value (fst kc) d)) (snd kc))"

definition safeParse ::
  "(jsstring \<Rightarrow> bool) \<Rightarrow> schema \<Rightarrow> ContactFormData \<Rightarrow> issue list + ContactFormData" where
  "safeParse emailRegex sch d =
     (let issues = concat (map (parse_key emailRegex d) sch)
      in if issues = [] then Inr d else Inl issues)"

text \<open>
  \<^verbatim>\<open>zodResolver\<close> turns the issues into react-hook-form's field errors: for each path
  the first issue's code and message.
\<close>

record FieldError =
  error_type :: issue_code
  error_message :: jsstring

type_synonym FieldErrors = "field \<rightharpoonup> FieldError"

fun toFieldErrors :: "issue list \<Rightarrow> FieldErrors \<Rightarrow> FieldErrors" where
  "toFieldErrors [] errs = errs"
| "toFieldErrors (i # is) errs =
     toFieldErrors is
       (if errs (path i) = None
        then errs(path i \<mapsto> \<lparr>error_type = code i, error_message = issue_message i\<rparr>)
        else errs)"

definition zodResolver ::
  "(jsstring \<Rightarrow> bool) \<Rightarrow> schema \<Rightarrow> ContactFormData \<Rightarrow> FieldErrors + ContactFormData" where
  "zodResolver emailRegex sch d =
     (case safeParse emailRegex sch d of
        Inr out \<Rightarrow> Inr out
      | Inl issues \<Rightarrow> Inl (toFieldErrors issues Map.empty))"

subsection \<open>The email pattern used for concrete runs\<close>

text \<open>
  For runs on concrete inputs the parameter \<open>emailRegex\<close> is instantiated with the
  pattern of zod 3.23,
  \<^verbatim>\<open>/^(?!\.)(?!.*\.\.)([A-Z0-9_'+\-\.]*)[A-Z0-9_+-]@([A-Z0-9][A-Z0-9\-]*\.)+[A-Z]{2,}$/i\<close>,
  written as a function: one \<^verbatim>\<open>@\<close>; a local part of the listed characters that does
  not start with a dot, does not end with a dot or an apostrophe and has no two dots in
  a row; a domain of at least two labels separated by dots, the last one of two or more
  letters. No general theorem below depends on this choice.
\<close>

definition is_letter :: "16 word \<Rightarrow> bool" where
  "is_letter c = ((0x41 \<le> c \<and> c \<le> 0x5A) \<or> (0x61 \<le> c \<and> c \<le> 0x7A))"

definition is_digit :: "16 word \<Rightarrow> bool" where
  "is_digit c = (0x30 \<le> c \<and> c \<le> 0x39)"

definition local_unit :: "16 word \<Rightarrow> bool" where
  "local_unit c =
     (is_letter c \<or> is_digit c \<or> c = 0x5F \<or> c = 0x27 \<or> c = 0x2B \<or> c = 0x2D \<or> c = 0x2E)"

definition local_last :: "16 word \<Rightarrow> bool" where
  "local_last c = (is_letter c \<or> is_digit c \<or> c = 0x5F \<or> c = 0x2B \<or> c = 0x2D)"

fun has_dotdot :: "jsstring \<Rightarrow> bool" where
  "has_dotdot (c # d # cs) = ((c = 0x2E \<and> d = 0x2E) \<or> has_dotdot (d # cs))"
| "has_dotdot cs = False"

fun split_on :: "16 word \<Rightarrow> jsstring \<Rightarrow> jsstring list" where
  "split_on sep [] = [[]]"
| "split_on sep (c # cs) =
     (if c = sep then [] # split_on sep cs
      else (case split_on sep cs of [] \<Rightarrow> [[c]] | p # ps \<Rightarrow> (c # p) # ps))"

definition domain_label :: "jsstring \<Rightarrow> bool" where
  "domain_label l =
     (case l of [] \<Rightarrow> False
      | c # cs \<Rightarrow> (is_letter c \<or> is_digit c) \<and>
                 list_all (\<lambda>x. is_letter x \<or> is_digit x \<or> x = 0x2D) cs)"

definition top_level :: "jsstring \<Rightarrow> bool" where
  "top_level l = (2 \<le> length l \<and> list_all is_letter l)"

definition zod_emailRegex :: "jsstring \<Rightarrow> bool" where
  "zod_emailRegex v =
     (case split_on 0x40 v of
        [l, d] \<Rightarrow>
          l \<noteq> [] \<and> hd l \<noteq> 0x2E \<and> \<not> has_dotdot v \<and> list_all local_unit l \<and>
          local_last (last l) \<and>
          (let ls = split_on 0x2E d
           in 2 \<le> length ls \<and> list_all domain_label (butlast ls) \<and> top_level (last ls))
      | _ \<Rightarrow> False)"

subsection \<open>\<^verbatim>\<open>JSON.stringify\<close> on the form data (line 39)\<close>

text \<open>
  ECMAScript's \<^verbatim>\<open>QuoteJSONString\<close>: the string between double quotes, with the short
  escapes for backspace, tab, line feed, form feed, carriage return, the double quote
  and the backslash, a \<^verbatim>\<open>\uXXXX\<close> escape (lower-case hexadecimal) for every other code
  unit below 0x20 and for every surrogate that is not part of a pair, and every other
  code unit as it is. An object of three string properties is serialised with its keys
  in insertion order, which is the order of the schema's shape, and no white space.
\<close>

definition hex_digit :: "nat \<Rightarrow> 16 word" where
  "hex_digit n = (if n < 10 then of_nat (48 + n) else of_nat (87 + n))"

definition unicode_escape :: "16 word \<Rightarrow> jsstring" where
  "unicode_escape c =
     [0x5C, 0x75,
      hex_digit (unat c div 4096 mod 16), hex_digit (unat c div 256 mod 16),
      hex_digit (unat c div 16 mod 16), hex_digit (unat c mod 16)]"

definition leading_surrogate :: "16 word \<Rightarrow> bool" where
  "leading_surrogate c = (0xD800 \<le> c \<and> c \<le> 0xDBFF)"

definition trailing_surrogate :: "16 word \<Rightarrow> bool" where
  "trailing_surrogate c = (0xDC00 \<le> c \<and> c \<le> 0xDFFF)"

definition escape_unit :: "16 word \<Rightarrow> jsstring" where
  "escape_unit c =
     (if c = 0x08 then [0x5C, 0x62]
      else if c = 0x09 then [0x5C, 0x74]
      else if c = 0x0A then [0x5C, 0x6E]
      else if c = 0x0C then [0x5C, 0x66]
      else if c = 0x0D then [0x5C, 0x72]
      else if c = 0x22 then [0x5C, 0x22]
      else if c = 0x5C then [0x5C, 0x5C]
      else if c < 0x20 \<or> leading_surrogate c \<or> trailing_surrogate c then unicode_escape c
      else [c])"

fun quote_units :: "jsstring \<Rightarrow> jsstring" where
  "quote_units (c # d # cs) =
     (if leading_surrogate c \<and> trailing_surrogate d then c # d # quote_units cs
      else escape_unit c @ quote_units (d # cs))"
| "quote_units [c] = escape_unit c"
| "quote_units [] = []"

definition QuoteJSONString :: "jsstring \<Rightarrow> jsstring" where
  "QuoteJSONString v = [0x22] @ quote_units v @ [0x22]"

definition JSON_stringify :: "ContactFormData \<Rightarrow> jsstring" where
  "JSON_stringify d =
     str ''{'' @ QuoteJSONString (str ''name'') @ str '':'' @ QuoteJSONString (name d) @
     str '','' @ QuoteJSONString (str ''email'') @ str '':'' @ QuoteJSONString (email d) @
     str '','' @ QuoteJSONString (str ''message'') @ str '':'' @
     QuoteJSONString (message d) @ str ''}''"

subsection \<open>The state of the mounted component\<close>

text \<open>
  \<open>submitStatus\<close> is the \<^verbatim>\<open>useState\<close> cell of line 27; \<open>fieldValues\<close>, \<open>errors\<close> and
  \<open>isSubmitting\<close> are the form state that \<^verbatim>\<open>useForm\<close> keeps. The environment is part of
  the state: a clock in milliseconds, the deadlines of the pending \<^verbatim>\<open>setTimeout\<close>
  callbacks (each of them is the closure of line 60), the requests handed to
  \<^verbatim>\<open>fetch\<close>, those among them whose promise has not settled (each stands for one
  suspended call of \<open>onSubmit\<close>), the lines written by \<^verbatim>\<open>console.error\<close>, and the
  exceptions that left a handler uncaught.
\<close>

record SubmitStatus =
  success :: bool
  status_message :: jsstring

datatype js_exception = TypeError jsstring | DOMException jsstring | Error jsstring

datatype http_method = GET | POST

record request =
  url :: jsstring
  http_method :: http_method
  headers :: "(jsstring \<times> jsstring) list"
  body :: jsstring

record response =
  status :: nat

text \<open>The Fetch standard: \<^verbatim>\<open>response.ok\<close> is true for a status from 200 to 299.\<close>

definition ok :: "response \<Rightarrow> bool" where
  "ok r = (200 \<le> status r \<and> status r \<le> 299)"

datatype fetch_outcome = Fulfilled response | Rejected js_exception

record form_state =
  fieldValues :: ContactFormData
  errors :: FieldErrors
  isSubmitting :: bool
  submitStatus :: "SubmitStatus option"
  clock :: nat
  timers :: "nat list"
  sent :: "request list"
  inflight :: "request list"
  console :: "(jsstring \<times> js_exception) list"
  unhandled :: "js_exception list"

definition emptyForm :: ContactFormData where
  "emptyForm = \<lparr>name = [], email = [], message = []\<rparr>"

definition mounted :: form_state where
  "mounted =
     \<lparr>fieldValues = emptyForm, errors = Map.empty, isSubmitting = False,
      submitStatus = None, clock = 0, timers = [], sent = [], inflight = [],
      console = [], unhandled = []\<rparr>"

definition setSubmitStatus :: "SubmitStatus option \<Rightarrow> form_state \<Rightarrow> form_state" where
  "setSubmitStatus v s = s\<lparr>submitStatus := v\<rparr>"

text \<open>
  \<^verbatim>\<open>reset()\<close> without arguments, on a form without default values: the inputs go back
  to the empty string and the field errors are dropped.
\<close>

definition reset :: "form_state \<Rightarrow> form_state" where
  "reset s = s\<lparr>fieldValues := emptyForm, errors := Map.empty\<rparr>"

definition fetch :: "request \<Rightarrow> form_state \<Rightarrow> form_state" where
  "fetch req s = s\<lparr>sent := sent s @ [req], inflight := inflight s @ [req]\<rparr>"

definition setTimeout :: "nat \<Rightarrow> form_state \<Rightarrow> form_state" where
  "setTimeout delay s = s\<lparr>timers := timers s @ [clock s + delay]\<rparr>"

definition console_error :: "jsstring \<Rightarrow> js_exception \<Rightarrow> form_state \<Rightarrow> form_state" where
  "console_error label e s = s\<lparr>console := console s @ [(label, e)]\<rparr>"

subsection \<open>\<open>onSubmit\<close> (lines 30-63)\<close>

definition successMessage :: jsstring where
  "successMessage = str ''Mensagem enviada com sucesso! Obrigado.''"

definition failureMessage :: jsstring where
  "failureMessage = str ''Ocorreu um erro ao enviar. Tente novamente.''"

definition serverFailure :: js_exception where
  "serverFailure = Error (str ''Houve uma falha na resposta do servidor.'')"

definition consoleLabel :: jsstring where
  "consoleLabel = str ''Falha ao enviar o formul'' @ [0xE1] @ str ''rio:''"

definition sendEmailRequest :: "ContactFormData \<Rightarrow> request" where
  "sendEmailRequest d =
     \<lparr>url = str ''/api/send-email'', http_method = POST,
      headers = [(str ''Content-Type'', str ''application/json'')],
      body = JSON_stringify d\<rparr>"

text \<open>
  The handler is asynchronous: it runs to the \<^verbatim>\<open>await\<close> of line 34 and is resumed
  when the promise of \<^verbatim>\<open>fetch\<close> settles. \<open>onSubmit_call\<close> is the first part (lines
  31-40): the status is cleared and the request is handed to \<^verbatim>\<open>fetch\<close>. Nothing in it
  can throw: the data are three strings.
\<close>

definition onSubmit_call :: "ContactFormData \<Rightarrow> form_state \<Rightarrow> form_state" where
  "onSubmit_call d s = fetch (sendEmailRequest d) (setSubmitStatus None s)"

text \<open>
  A block completes normally with a state (\<open>Inr\<close>) or throws, with the exception and
  the state reached at the throw (\<open>Inl\<close>). \<open>try_catch_finally\<close> is JavaScript's
  statement: an exception of the block goes to the handler; the finalizer runs after
  either; an exception of the finalizer replaces the completion before it, and otherwise
  an exception of the handler propagates.
\<close>

type_synonym completion = "(js_exception \<times> form_state) + form_state"

definition try_catch_finally ::
  "(form_state \<Rightarrow> completion) \<Rightarrow> (js_exception \<Rightarrow> form_state \<Rightarrow> completion) \<Rightarrow>
   (form_state \<Rightarrow> completion) \<Rightarrow> form_state \<Rightarrow> completion" where
  "try_catch_finally block handler finalizer s =
     (let c = (case block s of Inl (e, s1) \<Rightarrow> handler e s1 | Inr s1 \<Rightarrow> Inr s1)
      in case c of
           Inr s2 \<Rightarrow> finalizer s2
         | Inl (e, s2) \<Rightarrow>
             (case finalizer s2 of Inl (e', s3) \<Rightarrow> Inl (e', s3) | Inr s3 \<Rightarrow> Inl (e, s3)))"

text \<open>
  The rest of the \<^verbatim>\<open>try\<close> block once the promise has settled (lines 34-49): a
  rejected promise makes the \<^verbatim>\<open>await\<close> throw; a response that is not ok makes line 44
  throw; otherwise the success status is set and the form is reset.
\<close>

definition try_block :: "fetch_outcome \<Rightarrow> form_state \<Rightarrow> completion" where
  "try_block out s =
     (case out of
        Rejected e \<Rightarrow> Inl (e, s)
      | Fulfilled r \<Rightarrow>
          if \<not> ok r then Inl (serverFailure, s)
          else Inr (reset (setSubmitStatus
                 (Some \<lparr>success = True, status_message = successMessage\<rparr>) s)))"

definition catch_block :: "js_exception \<Rightarrow> form_state \<Rightarrow> completion" where
  "catch_block e s =
     Inr (setSubmitStatus (Some \<lparr>success = False, status_message = failureMessage\<rparr>)
            (console_error consoleLabel e s))"

text \<open>Line 59 schedules the closure \<^verbatim>\<open>() => setSubmitStatus(null)\<close>, 5000 ms ahead.\<close>

definition finally_block :: "form_state \<Rightarrow> completion" where
  "finally_block s = Inr (setTimeout 5000 s)"

definition onSubmit_resume :: "fetch_outcome \<Rightarrow> form_state \<Rightarrow> completion" where
  "onSubmit_resume out = try_catch_finally (try_block out) catch_block finally_block"

subsection \<open>\<open>handleSubmit(onSubmit)\<close> (line 77)\<close>

text \<open>
  react-hook-form's wrapper: it marks the form as submitting, runs the resolver on the
  current field values, and calls \<open>onSubmit\<close> with the parsed data only when the
  resolver reports no error; otherwise it stores the field errors and \<open>onSubmit\<close> is not
  called. When \<open>onSubmit\<close> has finished the form is no longer submitting, and an
  exception of \<open>onSubmit\<close> would be thrown on, to nobody. The wrapper itself does not
  look at \<open>isSubmitting\<close> before it starts.
\<close>

definition handleSubmit :: "(jsstring \<Rightarrow> bool) \<Rightarrow> form_state \<Rightarrow> form_state" where
  "handleSubmit emailRegex s =
     (let s1 = s\<lparr>isSubmitting := True\<rparr>
      in case zodResolver emailRegex contactFormSchema (fieldValues s1) of
           Inl errs \<Rightarrow> s1\<lparr>errors := errs, isSubmitting := False\<rparr>
         | Inr d \<Rightarrow> onSubmit_call d (s1\<lparr>errors := Map.empty\<rparr>))"

definition handleSubmit_settled :: "fetch_outcome \<Rightarrow> form_state \<Rightarrow> form_state" where
  "handleSubmit_settled out s =
     (case onSubmit_resume out s of
        Inr s' \<Rightarrow> s'\<lparr>isSubmitting := False\<rparr>
      | Inl (e, s') \<Rightarrow> s'\<lparr>isSubmitting := False, unhandled := unhandled s' @ [e]\<rparr>)"

subsection \<open>The rendered controls and the events (lines 84-131)\<close>

text \<open>
  Lines 92, 104, 116 and 123 give the three inputs and the submit button the attribute
  \<^verbatim>\<open>disabled={isSubmitting}\<close>.
\<close>

datatype control = Input field | SubmitButton

fun disabled :: "form_state \<Rightarrow> control \<Rightarrow> bool" where
  "disabled s (Input f) = isSubmitting s"
| "disabled s SubmitButton = isSubmitting s"

text \<open>
  Lines 133-144 render the banner: one element when the status is present, none when it
  is absent.
\<close>

definition banners :: "form_state \<Rightarrow> SubmitStatus list" where
  "banners s = (case submitStatus s of None \<Rightarrow> [] | Some st \<Rightarrow> [st])"

text \<open>
  What can happen to the mounted component: the user edits an input, the user submits
  the form (the button, or Enter in an input), the oldest pending request settles, time
  passes. The browser delivers no event from a disabled control and does not submit a
  form through a disabled button, and the component is rendered again before the next
  event is delivered. Validation again on a change of a field, which react-hook-form
  does after the first submit, touches only \<open>errors\<close> and is left out. A timer fires
  when the clock reaches its deadline.
\<close>

datatype event = Change field jsstring | Submit | Settle fetch_outcome | Elapse nat

definition elapse :: "nat \<Rightarrow> form_state \<Rightarrow> form_state" where
  "elapse d s =
     (let t = clock s + d;
          due = filter (\<lambda>x. x \<le> t) (timers s);
          s1 = s\<lparr>clock := t, timers := filter (\<lambda>x. t < x) (timers s)\<rparr>
      in fold (\<lambda>x. setSubmitStatus None) due s1)"

fun dispatch :: "(jsstring \<Rightarrow> bool) \<Rightarrow> form_state \<Rightarrow> event \<Rightarrow> form_state" where
  "dispatch emailRegex s (Change f v) =
     (if disabled s (Input f) then s
      else s\<lparr>fieldValues := set_value f v (fieldValues s)\<rparr>)"
| "dispatch emailRegex s Submit =
     (if disabled s SubmitButton then s else handleSubmit emailRegex s)"
| "dispatch emailRegex s (Settle out) =
     (case inflight s of
        [] \<Rightarrow> s
      | r # rs \<Rightarrow> handleSubmit_settled out (s\<lparr>inflight := rs\<rparr>))"
| "dispatch emailRegex s (Elapse d) = elapse d s"

fun run :: "(jsstring \<Rightarrow> bool) \<Rightarrow> form_state \<Rightarrow> event list \<Rightarrow> form_state" where
  "run emailRegex s [] = s"
| "run emailRegex s (ev # evs) = run emailRegex (dispatch emailRegex s ev) evs"

subsection \<open>Invariants of the event loop\<close>

text \<open>
  \<open>one_in_flight\<close>: at most one request is pending, and the form is submitting exactly
  while one is. \<open>cleared_while_pending\<close>: no status is shown while a request is pending.
\<close>

definition one_in_flight :: "form_state \<Rightarrow> bool" where
  "one_in_flight s = (length (inflight s) \<le> 1 \<and> (isSubmitting s \<longleftrightarrow> inflight s \<noteq> []))"

definition cleared_while_pending :: "form_state \<Rightarrow> bool" where
  "cleared_while_pending s = (inflight s \<noteq> [] \<longrightarrow> submitStatus s = None)"

subsection \<open>Concrete inputs and runs\<close>

text \<open>
  The valid input of the specification, an input that breaks all three rules, the
  events of a user typing an input into the empty form, and the runs used below: a
  submitted form whose request is pending, the same form after the request has failed,
  and a form submitted a second time 3000 ms after a first attempt failed.
\<close>

definition anaSilva :: ContactFormData where
  "anaSilva =
     \<lparr>name = str ''Ana Silva'', email = str ''ana@example.com'',
      message = str ''Ol'' @ [0xE1] @ str '', gostaria de saber mais.''\<rparr>"

definition anaSilvaJSON :: jsstring where
  "anaSilvaJSON =
     str ''{'' @ [0x22] @ str ''name'' @ [0x22] @ str '':'' @
     [0x22] @ str ''Ana Silva'' @ [0x22] @ str '','' @
     [0x22] @ str ''email'' @ [0x22] @ str '':'' @
     [0x22] @ str ''ana@example.com'' @ [0x22] @ str '','' @
     [0x22] @ str ''message'' @ [0x22] @ str '':'' @
     [0x22] @ str ''Ol'' @ [0xE1] @ str '', gostaria de saber mais.'' @ [0x22] @ str ''}''"

definition tooShort :: ContactFormData where
  "tooShort = \<lparr>name = str ''Al'', email = str ''ana@example'', message = str ''Oi''\<rparr>"

definition fillIn :: "ContactFormData \<Rightarrow> event list" where
  "fillIn d = [Change Name (name d), Change Email (email d), Change Message (message d)]"

definition serverError :: fetch_outcome where
  "serverError = Fulfilled \<lparr>status = 500\<rparr>"

definition submitting :: "event list" where
  "submitting = fillIn anaSilva @ [Submit]"

definition failedOnce :: "event list" where
  "failedOnce = submitting @ [Settle serverError]"

definition resubmitting :: "event list" where
  "resubmitting = fillIn anaSilva @ [Submit, Settle serverError, Elapse 3000, Submit]"

definition resubmitted :: "event list" where
  "resubmitted = resubmitting @ [Settle serverError]"

section \<open>Properties\<close>

subsection \<open>Validation\<close>

lemma length_str: "length (str cs) = length cs"
  by (simp add: str_def)

lemma parse_schema:
  "concat (map (parse_key rx d) contactFormSchema) =
     (if length (name d) < 3
      then [\<lparr>path = Name, code = too_small, issue_message = nameMessage\<rparr>] else []) @
     (if \<not> rx (email d)
      then [\<lparr>path = Email, code = invalid_string, issue_message = emailMessage\<rparr>] else []) @
     (if length (message d) < 10
      then [\<lparr>path = Message, code = too_small, issue_message = messageMessage\<rparr>] else [])"
  by (simp add: contactFormSchema_def parse_key_def)

lemma resolver_accepts:
  "3 \<le> length (name d) \<Longrightarrow> rx (email d) \<Longrightarrow> 10 \<le> length (message d) \<Longrightarrow>
   zodResolver rx contactFormSchema d = Inr d"
  by (simp add: zodResolver_def safeParse_def parse_schema)

lemma resolver_rejects:
  "length (name d) < 3 \<or> \<not> rx (email d) \<or> length (message d) < 10 \<Longrightarrow>
   \<exists>errs. zodResolver rx contactFormSchema d = Inl errs \<and> errs \<noteq> Map.empty"
  by (auto simp: zodResolver_def safeParse_def parse_schema Let_def)

lemma ana_email: "zod_emailRegex (str ''ana@example.com'')"
  unfolding zod_emailRegex_def
  by (simp add: str_def is_letter_def is_digit_def local_unit_def local_last_def
      domain_label_def top_level_def)

lemma tooShort_email: "\<not> zod_emailRegex (str ''ana@example'')"
  unfolding zod_emailRegex_def
  by (simp add: str_def is_letter_def is_digit_def local_unit_def local_last_def
      domain_label_def top_level_def)

lemma ana_accepted: "zodResolver zod_emailRegex contactFormSchema anaSilva = Inr anaSilva"
  by (rule resolver_accepts) (simp_all add: anaSilva_def ana_email length_str)

text \<open>
  C1. For every form input the validation succeeds exactly when the name has at least
  3 code units, the email matches the library's email pattern and the message has at
  least 10 code units, and then its output is the input. A name shorter than 3 makes it
  fail with the name-length error on \<open>name\<close>, an email the pattern rejects with the
  email-format error on \<open>email\<close>, a message shorter than 10 with the message-length
  error on \<open>message\<close>.
\<close>

theorem validation_rules:
  "((\<exists>out. zodResolver rx contactFormSchema d = Inr out) \<longleftrightarrow>
      3 \<le> length (name d) \<and> rx (email d) \<and> 10 \<le> length (message d)) \<and>
   (3 \<le> length (name d) \<and> rx (email d) \<and> 10 \<le> length (message d) \<longrightarrow>
      zodResolver rx contactFormSchema d = Inr d) \<and>
   (length (name d) < 3 \<longrightarrow>
      (\<exists>errs. zodResolver rx contactFormSchema d = Inl errs \<and>
         errs Name = Some \<lparr>error_type = too_small, error_message = nameMessage\<rparr>)) \<and>
   (\<not> rx (email d) \<longrightarrow>
      (\<exists>errs. zodResolver rx contactFormSchema d = Inl errs \<and>
         errs Email = Some \<lparr>error_type = invalid_string, error_message = emailMessage\<rparr>)) \<and>
   (length (message d) < 10 \<longrightarrow>
      (\<exists>errs. zodResolver rx contactFormSchema d = Inl errs \<and>
         errs Message = Some \<lparr>error_type = too_small, error_message = messageMessage\<rparr>))"
  by (auto simp: zodResolver_def safeParse_def parse_schema Let_def)

theorem validation_rules_witness:
  "3 \<le> length (name anaSilva) \<and> zod_emailRegex (email anaSilva) \<and>
   10 \<le> length (message anaSilva) \<and>
   zodResolver zod_emailRegex contactFormSchema anaSilva = Inr anaSilva \<and>
   length (name tooShort) < 3 \<and> \<not> zod_emailRegex (email tooShort) \<and>
   length (message tooShort) < 10 \<and>
   (\<exists>errs. zodResolver zod_emailRegex contactFormSchema tooShort = Inl errs \<and>
      errs Name = Some \<lparr>error_type = too_small, error_message = nameMessage\<rparr> \<and>
      errs Email = Some \<lparr>error_type = invalid_string, error_message = emailMessage\<rparr> \<and>
      errs Message = Some \<lparr>error_type = too_small, error_message = messageMessage\<rparr>)"
proof -
  have good: "3 \<le> length (name anaSilva)" "zod_emailRegex (email anaSilva)"
    "10 \<le> length (message anaSilva)"
    by (simp_all add: anaSilva_def ana_email length_str)
  have bad: "length (name tooShort) < 3" "\<not> zod_emailRegex (email tooShort)"
    "length (message tooShort) < 10"
    by (simp_all add: tooShort_def tooShort_email length_str)
  show ?thesis
    using good bad validation_rules [of zod_emailRegex anaSilva]
      validation_rules [of zod_emailRegex tooShort]
    by auto
qed

subsection \<open>The handler after the request has settled\<close>

lemmas state_ops = setTimeout_def reset_def setSubmitStatus_def console_error_def fetch_def

lemma onSubmit_resume_ok:
  "ok r \<Longrightarrow>
   onSubmit_resume (Fulfilled r) s =
     Inr (setTimeout 5000 (reset (setSubmitStatus
            (Some \<lparr>success = True, status_message = successMessage\<rparr>) s)))"
  by (simp add: onSubmit_resume_def try_catch_finally_def try_block_def finally_block_def)

lemma onSubmit_resume_not_ok:
  "\<not> ok r \<Longrightarrow>
   onSubmit_resume (Fulfilled r) s =
     Inr (setTimeout 5000 (setSubmitStatus
            (Some \<lparr>success = False, status_message = failureMessage\<rparr>)
            (console_error consoleLabel serverFailure s)))"
  by (simp add: onSubmit_resume_def try_catch_finally_def try_block_def catch_block_def
      finally_block_def)

lemma onSubmit_resume_rejected:
  "onSubmit_resume (Rejected e) s =
     Inr (setTimeout 5000 (setSubmitStatus
            (Some \<lparr>success = False, status_message = failureMessage\<rparr>)
            (console_error consoleLabel e s)))"
  by (simp add: onSubmit_resume_def try_catch_finally_def try_block_def catch_block_def
      finally_block_def)

lemma handleSubmit_valid:
  "zodResolver rx contactFormSchema (fieldValues s) = Inr d \<Longrightarrow>
   handleSubmit rx s = onSubmit_call d (s\<lparr>isSubmitting := True, errors := Map.empty\<rparr>)"
  by (simp add: handleSubmit_def)

lemma handleSubmit_invalid:
  "zodResolver rx contactFormSchema (fieldValues s) = Inl errs \<Longrightarrow>
   handleSubmit rx s = s\<lparr>errors := errs, isSubmitting := False\<rparr>"
  by (simp add: handleSubmit_def)

lemma filled:
  "run rx mounted (fillIn d @ evs) = run rx (mounted\<lparr>fieldValues := d\<rparr>) evs"
  by (cases d) (simp add: fillIn_def mounted_def emptyForm_def)

lemma run_append: "run rx s (xs @ ys) = run rx (run rx s xs) ys"
  by (induction xs arbitrary: s) simp_all

lemma run_submitting:
  "run zod_emailRegex mounted submitting =
     mounted\<lparr>fieldValues := anaSilva, isSubmitting := True,
             sent := [sendEmailRequest anaSilva], inflight := [sendEmailRequest anaSilva]\<rparr>"
  unfolding submitting_def filled
  by (simp add: mounted_def handleSubmit_def ana_accepted onSubmit_call_def state_ops)

text \<open>
  C2. When the request of a submit attempt is fulfilled with a status from 200 to 299,
  the handler returns with all three fields cleared and the status set to the success
  variant with the success message, and so does the component when the pending request
  settles that way.
\<close>

theorem ok_response_clears_fields_and_reports_success:
  "200 \<le> status r \<Longrightarrow> status r \<le> 299 \<Longrightarrow> inflight s = q # qs \<Longrightarrow>
   (\<exists>s'. onSubmit_resume (Fulfilled r) s = Inr s' \<and>
      fieldValues s' = \<lparr>name = [], email = [], message = []\<rparr> \<and>
      submitStatus s' = Some \<lparr>success = True, status_message = successMessage\<rparr>) \<and>
   fieldValues (dispatch rx s (Settle (Fulfilled r))) =
     \<lparr>name = [], email = [], message = []\<rparr> \<and>
   submitStatus (dispatch rx s (Settle (Fulfilled r))) =
     Some \<lparr>success = True, status_message = successMessage\<rparr>"
  by (simp add: onSubmit_resume_ok ok_def state_ops handleSubmit_settled_def emptyForm_def)

theorem ok_response_clears_fields_and_reports_success_witness:
  "200 \<le> status \<lparr>status = 200\<rparr> \<and> status \<lparr>status = 200\<rparr> \<le> 299 \<and>
   inflight (run zod_emailRegex mounted submitting) = [sendEmailRequest anaSilva] \<and>
   fieldValues (run zod_emailRegex mounted submitting) = anaSilva \<and>
   fieldValues (run zod_emailRegex mounted (submitting @ [Settle (Fulfilled \<lparr>status = 200\<rparr>)])) =
     \<lparr>name = [], email = [], message = []\<rparr> \<and>
   submitStatus (run zod_emailRegex mounted (submitting @ [Settle (Fulfilled \<lparr>status = 200\<rparr>)])) =
     Some \<lparr>success = True, status_message = successMessage\<rparr>"
proof -
  have p: "inflight (run zod_emailRegex mounted submitting) = [sendEmailRequest anaSilva]"
    and v: "fieldValues (run zod_emailRegex mounted submitting) = anaSilva"
    by (simp_all add: run_submitting)
  have r: "200 \<le> status \<lparr>status = 200\<rparr>" "status \<lparr>status = 200\<rparr> \<le> 299"
    by simp_all
  show ?thesis
    using p v r
      ok_response_clears_fields_and_reports_success [OF r p, of zod_emailRegex]
    by (simp add: run_append)
qed

text \<open>
  C3. When the request of a submit attempt is rejected, or fulfilled with a status
  outside 200 to 299, the handler returns with the status set to the one failure
  variant, the same for both causes, and with the field values as they were; so does
  the component when the pending request settles that way.
\<close>

theorem failed_request_keeps_fields_and_reports_failure:
  "(\<forall>r. out = Fulfilled r \<longrightarrow> \<not> (200 \<le> status r \<and> status r \<le> 299)) \<Longrightarrow>
   inflight s = q # qs \<Longrightarrow>
   (\<exists>s'. onSubmit_resume out s = Inr s' \<and> fieldValues s' = fieldValues s \<and>
      submitStatus s' = Some \<lparr>success = False, status_message = failureMessage\<rparr>) \<and>
   fieldValues (dispatch rx s (Settle out)) = fieldValues s \<and>
   submitStatus (dispatch rx s (Settle out)) =
     Some \<lparr>success = False, status_message = failureMessage\<rparr>"
  by (cases out)
    (simp_all add: onSubmit_resume_not_ok onSubmit_resume_rejected ok_def state_ops
      handleSubmit_settled_def)

theorem failed_request_keeps_fields_and_reports_failure_witness:
  "inflight (run zod_emailRegex mounted submitting) = [sendEmailRequest anaSilva] \<and>
   \<not> (200 \<le> status \<lparr>status = 500\<rparr> \<and> status \<lparr>status = 500\<rparr> \<le> 299) \<and>
   fieldValues (run zod_emailRegex mounted (submitting @ [Settle (Fulfilled \<lparr>status = 500\<rparr>)])) =
     anaSilva \<and>
   submitStatus (run zod_emailRegex mounted (submitting @ [Settle (Fulfilled \<lparr>status = 500\<rparr>)])) =
     Some \<lparr>success = False, status_message = failureMessage\<rparr> \<and>
   fieldValues (run zod_emailRegex mounted
       (submitting @ [Settle (Rejected (TypeError (str ''Failed to fetch'')))])) = anaSilva \<and>
   submitStatus (run zod_emailRegex mounted
       (submitting @ [Settle (Rejected (TypeError (str ''Failed to fetch'')))])) =
     Some \<lparr>success = False, status_message = failureMessage\<rparr>"
proof -
  have p: "inflight (run zod_emailRegex mounted submitting) = [sendEmailRequest anaSilva]"
    and v: "fieldValues (run zod_emailRegex mounted submitting) = anaSilva"
    by (simp_all add: run_submitting)
  have a: "\<forall>r. Fulfilled \<lparr>status = 500\<rparr> = Fulfilled r \<longrightarrow>
             \<not> (200 \<le> status r \<and> status r \<le> 299)"
    by auto
  have b: "\<forall>r. Rejected (TypeError (str ''Failed to fetch'')) = Fulfilled r \<longrightarrow>
             \<not> (200 \<le> status r \<and> status r \<le> 299)"
    by simp
  show ?thesis
    using p v
      failed_request_keeps_fields_and_reports_failure [OF a p, of zod_emailRegex]
      failed_request_keeps_fields_and_reports_failure [OF b p, of zod_emailRegex]
    by (simp add: run_append)
qed

subsection \<open>What each event changes\<close>

lemma handleSubmit_cases:
  "(\<exists>d. zodResolver rx contactFormSchema (fieldValues s) = Inr d \<and>
      handleSubmit rx s =
        onSubmit_call d (s\<lparr>isSubmitting := True, errors := Map.empty\<rparr>)) \<or>
   (\<exists>errs. zodResolver rx contactFormSchema (fieldValues s) = Inl errs \<and>
      handleSubmit rx s = s\<lparr>errors := errs, isSubmitting := False\<rparr>)"
  by (cases "zodResolver rx contactFormSchema (fieldValues s)")
    (simp_all add: handleSubmit_def)

lemma handleSubmit_clock: "clock (handleSubmit rx s) = clock s"
  and handleSubmit_timers: "timers (handleSubmit rx s) = timers s"
  and handleSubmit_unhandled: "unhandled (handleSubmit rx s) = unhandled s"
  using handleSubmit_cases [of rx s] by (auto simp: onSubmit_call_def state_ops)

lemma settled_fields:
  "sent (handleSubmit_settled out s) = sent s"
  "inflight (handleSubmit_settled out s) = inflight s"
  "clock (handleSubmit_settled out s) = clock s"
  "timers (handleSubmit_settled out s) = timers s @ [clock s + 5000]"
  "unhandled (handleSubmit_settled out s) = unhandled s"
  "\<not> isSubmitting (handleSubmit_settled out s)"
  "submitStatus (handleSubmit_settled out s) \<noteq> None"
proof -
  consider r where "out = Fulfilled r" "ok r" | r where "out = Fulfilled r" "\<not> ok r"
    | e where "out = Rejected e"
    by (cases out) auto
  then have
    "sent (handleSubmit_settled out s) = sent s \<and>
     inflight (handleSubmit_settled out s) = inflight s \<and>
     clock (handleSubmit_settled out s) = clock s \<and>
     timers (handleSubmit_settled out s) = timers s @ [clock s + 5000] \<and>
     unhandled (handleSubmit_settled out s) = unhandled s \<and>
     \<not> isSubmitting (handleSubmit_settled out s) \<and>
     submitStatus (handleSubmit_settled out s) \<noteq> None"
  proof cases
    case 1
    then show ?thesis
      by (simp add: handleSubmit_settled_def onSubmit_resume_ok state_ops)
  next
    case 2
    then show ?thesis
      by (simp add: handleSubmit_settled_def onSubmit_resume_not_ok state_ops)
  next
    case 3
    then show ?thesis
      by (simp add: handleSubmit_settled_def onSubmit_resume_rejected state_ops)
  qed
  then show
    "sent (handleSubmit_settled out s) = sent s"
    "inflight (handleSubmit_settled out s) = inflight s"
    "clock (handleSubmit_settled out s) = clock s"
    "timers (handleSubmit_settled out s) = timers s @ [clock s + 5000]"
    "unhandled (handleSubmit_settled out s) = unhandled s"
    "\<not> isSubmitting (handleSubmit_settled out s)"
    "submitStatus (handleSubmit_settled out s) \<noteq> None"
    by simp_all
qed

lemma fold_clear:
  "fold (\<lambda>x. setSubmitStatus None) xs s = (if xs = [] then s else s\<lparr>submitStatus := None\<rparr>)"
  by (induction xs arbitrary: s) (auto simp: setSubmitStatus_def)

lemma elapse_fields:
  "clock (elapse d s) = clock s + d"
  "timers (elapse d s) = filter (\<lambda>x. clock s + d < x) (timers s)"
  "sent (elapse d s) = sent s"
  "inflight (elapse d s) = inflight s"
  "isSubmitting (elapse d s) = isSubmitting s"
  "fieldValues (elapse d s) = fieldValues s"
  "unhandled (elapse d s) = unhandled s"
  "submitStatus (elapse d s) =
     (if \<exists>t\<in>set (timers s). t \<le> clock s + d then None else submitStatus s)"
  by (auto simp: elapse_def Let_def fold_clear filter_empty_conv)

lemma dispatch_sent: "ev \<noteq> Submit \<Longrightarrow> sent (dispatch rx s ev) = sent s"
  by (cases ev) (auto simp: settled_fields elapse_fields split: list.splits)

lemma run_sent: "Submit \<notin> set evs \<Longrightarrow> sent (run rx s evs) = sent s"
  by (induction evs arbitrary: s) (auto simp: dispatch_sent)

lemma dispatch_unhandled: "unhandled (dispatch rx s ev) = unhandled s"
  by (cases ev)
    (auto simp: settled_fields elapse_fields handleSubmit_unhandled split: list.splits)

lemma run_unhandled: "unhandled (run rx s evs) = unhandled s"
  by (induction evs arbitrary: s) (auto simp: dispatch_unhandled)

lemma dispatch_clock: "clock s \<le> clock (dispatch rx s ev)"
  by (cases ev)
    (auto simp: settled_fields elapse_fields handleSubmit_clock split: list.splits)

lemma run_clock: "clock s \<le> clock (run rx s evs)"
proof (induction evs arbitrary: s)
  case Nil
  show ?case by simp
next
  case (Cons ev evs)
  have "clock s \<le> clock (dispatch rx s ev)"
    by (rule dispatch_clock)
  also have "\<dots> \<le> clock (run rx (dispatch rx s ev) evs)"
    by (rule Cons.IH)
  finally show ?case by simp
qed

lemma dispatch_timer_kept:
  "t \<in> set (timers s) \<Longrightarrow> clock (dispatch rx s ev) < t \<Longrightarrow>
   t \<in> set (timers (dispatch rx s ev))"
  by (cases ev)
    (auto simp: settled_fields elapse_fields handleSubmit_timers split: list.splits)

lemma run_timer_kept:
  "t \<in> set (timers s) \<Longrightarrow> clock (run rx s evs) < t \<Longrightarrow> t \<in> set (timers (run rx s evs))"
proof (induction evs arbitrary: s)
  case Nil
  then show ?case by simp
next
  case (Cons ev evs)
  have "clock (dispatch rx s ev) \<le> clock (run rx (dispatch rx s ev) evs)"
    by (rule run_clock)
  with Cons.prems have "clock (dispatch rx s ev) < t"
    by simp
  with Cons.prems have "t \<in> set (timers (dispatch rx s ev))"
    by (simp add: dispatch_timer_kept)
  with Cons show ?case by simp
qed

lemma dispatch_sent_length: "length (sent s) \<le> length (sent (dispatch rx s ev))"
proof (cases ev)
  case Submit
  then show ?thesis
    using handleSubmit_cases [of rx s] by (auto simp: onSubmit_call_def state_ops)
qed (auto simp: settled_fields elapse_fields split: list.splits)

lemma run_sent_length: "length (sent s) \<le> length (sent (run rx s evs))"
proof (induction evs arbitrary: s)
  case Nil
  show ?case by simp
next
  case (Cons ev evs)
  have "length (sent s) \<le> length (sent (dispatch rx s ev))"
    by (rule dispatch_sent_length)
  also have "\<dots> \<le> length (sent (run rx (dispatch rx s ev) evs))"
    by (rule Cons.IH)
  finally show ?case by simp
qed

lemma idle_step:
  assumes "inflight s = []" and "\<not> isSubmitting s" and "timers s = [t]"
    and "length (sent (dispatch rx s ev)) \<le> length (sent s)"
    and "clock (dispatch rx s ev) < t"
  shows "inflight (dispatch rx s ev) = [] \<and> \<not> isSubmitting (dispatch rx s ev) \<and>
         timers (dispatch rx s ev) = [t] \<and> sent (dispatch rx s ev) = sent s \<and>
         submitStatus (dispatch rx s ev) = submitStatus s"
proof (cases ev)
  case (Change f v)
  with assms show ?thesis by simp
next
  case Submit
  with assms handleSubmit_cases [of rx s] show ?thesis
    by (auto simp: onSubmit_call_def state_ops)
next
  case (Settle out)
  with assms show ?thesis by simp
next
  case (Elapse d)
  with assms show ?thesis by (auto simp: elapse_fields)
qed

lemma status_kept:
  "inflight s = [] \<Longrightarrow> \<not> isSubmitting s \<Longrightarrow> timers s = [t] \<Longrightarrow>
   sent (run rx s evs) = sent s \<Longrightarrow> clock (run rx s evs) < t \<Longrightarrow>
   submitStatus (run rx s evs) = submitStatus s"
proof (induction evs arbitrary: s)
  case Nil
  show ?case by simp
next
  case (Cons ev evs)
  let ?s' = "dispatch rx s ev"
  have "length (sent ?s') \<le> length (sent (run rx ?s' evs))"
    by (rule run_sent_length)
  with Cons.prems have l: "length (sent ?s') \<le> length (sent s)"
    by simp
  have "clock ?s' \<le> clock (run rx ?s' evs)"
    by (rule run_clock)
  with Cons.prems have c: "clock ?s' < t"
    by simp
  have st: "inflight ?s' = [] \<and> \<not> isSubmitting ?s' \<and> timers ?s' = [t] \<and>
        sent ?s' = sent s \<and> submitStatus ?s' = submitStatus s"
    using Cons.prems(1-3) l c by (rule idle_step)
  with Cons.prems have "submitStatus (run rx ?s' evs) = submitStatus ?s'"
    by (intro Cons.IH) simp_all
  with st show ?case by simp
qed

lemma one_in_flight_dispatch: "one_in_flight s \<Longrightarrow> one_in_flight (dispatch rx s ev)"
proof (cases ev)
  case (Change f v)
  assume "one_in_flight s"
  with Change show ?thesis
    by (auto simp: one_in_flight_def)
next
  case Submit
  assume "one_in_flight s"
  with Submit handleSubmit_cases [of rx s] show ?thesis
    by (auto simp: one_in_flight_def onSubmit_call_def state_ops)
next
  case (Settle out)
  assume "one_in_flight s"
  with Settle show ?thesis
    by (auto simp: one_in_flight_def settled_fields split: list.splits)
next
  case (Elapse d)
  assume "one_in_flight s"
  with Elapse show ?thesis
    by (auto simp: one_in_flight_def elapse_fields)
qed

lemma one_in_flight_run: "one_in_flight s \<Longrightarrow> one_in_flight (run rx s evs)"
  by (induction evs arbitrary: s) (auto simp: one_in_flight_dispatch)

lemma one_in_flight_mounted: "one_in_flight mounted"
  by (simp add: one_in_flight_def mounted_def)

lemma cleared_dispatch:
  "one_in_flight s \<Longrightarrow> cleared_while_pending s \<Longrightarrow> cleared_while_pending (dispatch rx s ev)"
proof (cases ev)
  case (Change f v)
  assume "one_in_flight s" "cleared_while_pending s"
  with Change show ?thesis
    by (auto simp: cleared_while_pending_def)
next
  case Submit
  assume "one_in_flight s" "cleared_while_pending s"
  with Submit handleSubmit_cases [of rx s] show ?thesis
    by (auto simp: cleared_while_pending_def onSubmit_call_def state_ops one_in_flight_def)
next
  case (Settle out)
  assume "one_in_flight s" "cleared_while_pending s"
  with Settle show ?thesis
    by (auto simp: cleared_while_pending_def one_in_flight_def settled_fields
        split: list.splits)
next
  case (Elapse d)
  assume "one_in_flight s" "cleared_while_pending s"
  with Elapse show ?thesis
    by (auto simp: cleared_while_pending_def elapse_fields)
qed

lemma cleared_run:
  "one_in_flight s \<Longrightarrow> cleared_while_pending s \<Longrightarrow> cleared_while_pending (run rx s evs)"
  by (induction evs arbitrary: s) (auto simp: cleared_dispatch one_in_flight_dispatch)

subsection \<open>The concrete runs\<close>

lemma ana_json: "JSON_stringify anaSilva = anaSilvaJSON"
  by (simp add: anaSilva_def anaSilvaJSON_def JSON_stringify_def QuoteJSONString_def str_def
      escape_unit_def leading_surrogate_def trailing_surrogate_def)

lemma run_failedOnce:
  "run zod_emailRegex mounted failedOnce =
     mounted\<lparr>fieldValues := anaSilva,
             submitStatus := Some \<lparr>success = False, status_message = failureMessage\<rparr>,
             timers := [5000], sent := [sendEmailRequest anaSilva],
             console := [(consoleLabel, serverFailure)]\<rparr>"
  unfolding failedOnce_def run_append run_submitting
  by (simp add: mounted_def serverError_def handleSubmit_settled_def onSubmit_resume_not_ok
      ok_def state_ops)

lemma blocked_after_failure:
  "run zod_emailRegex mounted (failedOnce @ [Elapse 2000, Change Name [], Submit, Elapse 2999]) =
     (run zod_emailRegex mounted failedOnce)
       \<lparr>fieldValues := anaSilva\<lparr>name := []\<rparr>,
        errors := [Name \<mapsto> \<lparr>error_type = too_small, error_message = nameMessage\<rparr>],
        clock := 4999\<rparr>"
  unfolding run_append run_failedOnce
  by (simp add: mounted_def elapse_def handleSubmit_def zodResolver_def safeParse_def
      parse_schema anaSilva_def ana_email length_str setSubmitStatus_def)

lemma run_resubmitting:
  "run zod_emailRegex mounted resubmitting =
     mounted\<lparr>fieldValues := anaSilva, isSubmitting := True, clock := 3000,
             timers := [5000],
             sent := [sendEmailRequest anaSilva, sendEmailRequest anaSilva],
             inflight := [sendEmailRequest anaSilva],
             console := [(consoleLabel, serverFailure)]\<rparr>"
  unfolding resubmitting_def filled
  by (simp add: mounted_def handleSubmit_def ana_accepted onSubmit_call_def serverError_def
      handleSubmit_settled_def onSubmit_resume_not_ok ok_def state_ops elapse_def)

lemma run_resubmitted:
  "run zod_emailRegex mounted resubmitted =
     mounted\<lparr>fieldValues := anaSilva,
             submitStatus := Some \<lparr>success = False, status_message = failureMessage\<rparr>,
             clock := 3000, timers := [5000, 8000],
             sent := [sendEmailRequest anaSilva, sendEmailRequest anaSilva],
             console := [(consoleLabel, serverFailure), (consoleLabel, serverFailure)]\<rparr>"
  unfolding resubmitted_def run_append run_resubmitting
  by (simp add: mounted_def serverError_def handleSubmit_settled_def onSubmit_resume_not_ok
      ok_def state_ops)

subsection \<open>The request\<close>

text \<open>
  C4. A submit attempt on field values that pass validation hands exactly one request
  to \<^verbatim>\<open>fetch\<close>: a POST to \<^verbatim>\<open>/api/send-email\<close> with the single header
  \<^verbatim>\<open>Content-Type: application/json\<close> and the JSON text of the field values as its
  body. Nothing that happens afterwards, short of another submit by the user, sends a
  request again: there is no retry. For the input of Ana Silva the one request carries
  the JSON text of her three fields.
\<close>

theorem validated_submit_posts_once:
  "3 \<le> length (name (fieldValues s)) \<Longrightarrow> rx (email (fieldValues s)) \<Longrightarrow>
   10 \<le> length (message (fieldValues s)) \<Longrightarrow> Submit \<notin> set evs \<Longrightarrow>
   sent (run rx (handleSubmit rx s) evs) =
     sent s @
     [\<lparr>url = str ''/api/send-email'', http_method = POST,
       headers = [(str ''Content-Type'', str ''application/json'')],
       body = JSON_stringify (fieldValues s)\<rparr>]"
  by (simp add: run_sent handleSubmit_valid [OF resolver_accepts] onSubmit_call_def state_ops
      sendEmailRequest_def)

theorem validated_submit_posts_once_witness:
  "3 \<le> length (name anaSilva) \<and> zod_emailRegex (email anaSilva) \<and>
   10 \<le> length (message anaSilva) \<and>
   Submit \<notin> set [Settle serverError, Elapse 5000, Change Name (str ''Ana'')] \<and>
   sent (run zod_emailRegex mounted
           (fillIn anaSilva @
            [Submit, Settle serverError, Elapse 5000, Change Name (str ''Ana'')])) =
     [\<lparr>url = str ''/api/send-email'', http_method = POST,
       headers = [(str ''Content-Type'', str ''application/json'')],
       body = anaSilvaJSON\<rparr>]"
proof -
  let ?s = "mounted\<lparr>fieldValues := anaSilva\<rparr>"
  have v: "3 \<le> length (name (fieldValues ?s))" "zod_emailRegex (email (fieldValues ?s))"
    "10 \<le> length (message (fieldValues ?s))"
    by (simp_all add: anaSilva_def ana_email length_str)
  have n: "Submit \<notin> set [Settle serverError, Elapse 5000, Change Name (str ''Ana'')]"
    by simp
  have "sent (run zod_emailRegex (handleSubmit zod_emailRegex ?s)
                [Settle serverError, Elapse 5000, Change Name (str ''Ana'')]) =
          sent ?s @
          [\<lparr>url = str ''/api/send-email'', http_method = POST,
            headers = [(str ''Content-Type'', str ''application/json'')],
            body = JSON_stringify (fieldValues ?s)\<rparr>]"
    using v n by (rule validated_submit_posts_once)
  moreover have "run zod_emailRegex mounted
           (fillIn anaSilva @
            [Submit, Settle serverError, Elapse 5000, Change Name (str ''Ana'')]) =
         run zod_emailRegex (handleSubmit zod_emailRegex ?s)
           [Settle serverError, Elapse 5000, Change Name (str ''Ana'')]"
    unfolding filled by (simp add: mounted_def)
  ultimately show ?thesis
    using v n by (simp add: ana_json mounted_def)
qed

subsection \<open>The clear-timer\<close>




subsection \<open>The status while a request is pending\<close>

text \<open>
  C6. In every state the mounted component can reach at most one status banner is
  rendered. The first statement of \<open>onSubmit\<close> sets the status to absent, whatever it
  held, before the request is made; and in every reachable state a request that is
  pending finds the status absent, so the outcome of the request is evaluated on a
  cleared status.
\<close>

theorem submit_clears_prior_status:
  "length (banners (run rx mounted evs)) \<le> 1 \<and>
   submitStatus (onSubmit_call d s) = None \<and>
   (inflight (run rx mounted evs) \<noteq> [] \<longrightarrow> submitStatus (run rx mounted evs) = None)"
proof -
  have "cleared_while_pending (run rx mounted evs)"
    by (rule cleared_run [OF one_in_flight_mounted])
      (simp add: cleared_while_pending_def mounted_def)
  then show ?thesis
    by (simp add: cleared_while_pending_def onSubmit_call_def state_ops banners_def
        split: option.split)
qed

theorem submit_clears_prior_status_witness:
  "submitStatus (run zod_emailRegex mounted (fillIn anaSilva @ [Submit, Settle serverError])) =
     Some \<lparr>success = False, status_message = failureMessage\<rparr> \<and>
   inflight (run zod_emailRegex mounted resubmitting) \<noteq> [] \<and>
   submitStatus (run zod_emailRegex mounted resubmitting) = None"
proof -
  have b: "submitStatus (run zod_emailRegex mounted
                           (fillIn anaSilva @ [Submit, Settle serverError])) =
             Some \<lparr>success = False, status_message = failureMessage\<rparr>"
    unfolding filled
    by (simp add: mounted_def handleSubmit_def ana_accepted onSubmit_call_def serverError_def
        handleSubmit_settled_def onSubmit_resume_not_ok ok_def state_ops)
  have p: "inflight (run zod_emailRegex mounted resubmitting) \<noteq> []"
    by (simp add: run_resubmitting)
  show ?thesis
    using b p submit_clears_prior_status [of zod_emailRegex resubmitting anaSilva mounted]
    by simp
qed

subsection \<open>Blocked submissions\<close>

text \<open>
  C7. When the field values break any of the three rules, the submit attempt is blocked:
  \<open>handleSubmit\<close> sends no request, leaves the status and the timers as they were, and
  stores the resolver's field errors, of which there is at least one. The same holds for
  the submit event of the user.
\<close>

theorem invalid_submit_is_blocked:
  "length (name (fieldValues s)) < 3 \<or> \<not> rx (email (fieldValues s)) \<or>
   length (message (fieldValues s)) < 10 \<Longrightarrow>
   sent (handleSubmit rx s) = sent s \<and> inflight (handleSubmit rx s) = inflight s \<and>
   submitStatus (handleSubmit rx s) = submitStatus s \<and>
   timers (handleSubmit rx s) = timers s \<and>
   zodResolver rx contactFormSchema (fieldValues s) = Inl (errors (handleSubmit rx s)) \<and>
   errors (handleSubmit rx s) \<noteq> Map.empty \<and>
   sent (dispatch rx s Submit) = sent s \<and>
   submitStatus (dispatch rx s Submit) = submitStatus s"
proof -
  assume "length (name (fieldValues s)) < 3 \<or> \<not> rx (email (fieldValues s)) \<or>
    length (message (fieldValues s)) < 10"
  then obtain errs where
    "zodResolver rx contactFormSchema (fieldValues s) = Inl errs" "errs \<noteq> Map.empty"
    using resolver_rejects by blast
  then show ?thesis
    by (simp add: handleSubmit_invalid)
qed

theorem invalid_submit_is_blocked_witness:
  "length (name (fieldValues (run zod_emailRegex mounted
     (resubmitted @ [Change Name (str ''Al'')])))) < 3 \<and>
   sent (run zod_emailRegex mounted (resubmitted @ [Change Name (str ''Al''), Submit])) =
     [sendEmailRequest anaSilva, sendEmailRequest anaSilva] \<and>
   submitStatus (run zod_emailRegex mounted (resubmitted @ [Change Name (str ''Al''), Submit])) =
     Some \<lparr>success = False, status_message = failureMessage\<rparr> \<and>
   errors (run zod_emailRegex mounted (resubmitted @ [Change Name (str ''Al''), Submit])) Name =
     Some \<lparr>error_type = too_small, error_message = nameMessage\<rparr> \<and>
   errors (run zod_emailRegex mounted (resubmitted @ [Change Name (str ''Al''), Submit]))
     \<noteq> Map.empty"
proof -
  let ?s = "run zod_emailRegex mounted (resubmitted @ [Change Name (str ''Al'')])"
  have s: "?s = (run zod_emailRegex mounted resubmitted)
                  \<lparr>fieldValues := anaSilva\<lparr>name := str ''Al''\<rparr>\<rparr>"
    unfolding run_append run_resubmitted by (simp add: mounted_def)
  have h: "length (name (fieldValues ?s)) < 3 \<or> \<not> zod_emailRegex (email (fieldValues ?s)) \<or>
           length (message (fieldValues ?s)) < 10"
    unfolding s by (simp add: length_str)
  have d: "run zod_emailRegex mounted (resubmitted @ [Change Name (str ''Al''), Submit]) =
           handleSubmit zod_emailRegex ?s"
    unfolding run_append s run_resubmitted by (simp add: mounted_def)
  have e: "errors (handleSubmit zod_emailRegex ?s) Name =
             Some \<lparr>error_type = too_small, error_message = nameMessage\<rparr>"
    unfolding s run_resubmitted
    by (simp add: handleSubmit_def zodResolver_def safeParse_def parse_schema length_str
        anaSilva_def ana_email mounted_def)
  have l: "length (name (fieldValues ?s)) < 3"
    unfolding s by (simp add: length_str)
  have "sent (handleSubmit zod_emailRegex ?s) = sent ?s"
    "submitStatus (handleSubmit zod_emailRegex ?s) = submitStatus ?s"
    "errors (handleSubmit zod_emailRegex ?s) \<noteq> Map.empty"
    using h invalid_submit_is_blocked [of ?s zod_emailRegex] by simp_all
  moreover have "sent ?s = [sendEmailRequest anaSilva, sendEmailRequest anaSilva]"
    "submitStatus ?s = Some \<lparr>success = False, status_message = failureMessage\<rparr>"
    unfolding s run_resubmitted by (simp_all add: mounted_def)
  ultimately show ?thesis
    using l e unfolding d by simp
qed

subsection \<open>One submission at a time\<close>

text \<open>
  C8. In every state the mounted component can reach, at most one request is pending,
  and while one is pending the three inputs and the submit button are disabled, a
  submit by the user changes nothing and neither does an edit of a field.
\<close>

theorem controls_disabled_while_in_flight:
  "length (inflight (run rx mounted evs)) \<le> 1 \<and>
   (inflight (run rx mounted evs) \<noteq> [] \<longrightarrow>
      disabled (run rx mounted evs) (Input Name) \<and>
      disabled (run rx mounted evs) (Input Email) \<and>
      disabled (run rx mounted evs) (Input Message) \<and>
      disabled (run rx mounted evs) SubmitButton \<and>
      dispatch rx (run rx mounted evs) Submit = run rx mounted evs \<and>
      dispatch rx (run rx mounted evs) (Change f v) = run rx mounted evs)"
proof -
  have "one_in_flight (run rx mounted evs)"
    by (rule one_in_flight_run [OF one_in_flight_mounted])
  then show ?thesis
    by (auto simp: one_in_flight_def)
qed

theorem controls_disabled_while_in_flight_witness:
  "inflight (run zod_emailRegex mounted submitting) \<noteq> [] \<and>
   length (inflight (run zod_emailRegex mounted submitting)) \<le> 1 \<and>
   disabled (run zod_emailRegex mounted submitting) SubmitButton \<and>
   run zod_emailRegex mounted (submitting @ [Submit]) =
     run zod_emailRegex mounted submitting \<and>
   sent (run zod_emailRegex mounted (submitting @ [Submit, Change Name [], Submit])) =
     [sendEmailRequest anaSilva]"
proof -
  let ?s = "run zod_emailRegex mounted submitting"
  have p: "inflight ?s \<noteq> []"
    by (simp add: run_submitting)
  have a: "dispatch zod_emailRegex ?s Submit = ?s"
    and b: "dispatch zod_emailRegex ?s (Change Name []) = ?s"
    and c: "disabled ?s SubmitButton" and l: "length (inflight ?s) \<le> 1"
    using p controls_disabled_while_in_flight [of zod_emailRegex submitting Name "[]"]
    by blast+
  have "sent ?s = [sendEmailRequest anaSilva]"
    by (simp add: run_submitting)
  then show ?thesis
    using p a b c l by (simp add: run_append)
qed

subsection \<open>The handler always returns\<close>

text \<open>
  C9. For every outcome of the request and every state, the handler completes normally:
  no exception leaves it. It ends with the status set, to the success or to the failure
  variant, and with one more timer pending, due 5000 ms ahead. No run of the mounted
  component records an uncaught exception.
\<close>

theorem handler_catches_every_exception:
  "(\<exists>s'. onSubmit_resume out s = Inr s' \<and>
      (submitStatus s' = Some \<lparr>success = True, status_message = successMessage\<rparr> \<or>
       submitStatus s' = Some \<lparr>success = False, status_message = failureMessage\<rparr>) \<and>
      timers s' = timers s @ [clock s + 5000]) \<and>
   unhandled (run rx mounted evs) = []"
proof -
  have "\<exists>s'. onSubmit_resume out s = Inr s' \<and>
      (submitStatus s' = Some \<lparr>success = True, status_message = successMessage\<rparr> \<or>
       submitStatus s' = Some \<lparr>success = False, status_message = failureMessage\<rparr>) \<and>
      timers s' = timers s @ [clock s + 5000]"
  proof (cases out)
    case (Fulfilled r)
    then show ?thesis
      by (cases "ok r") (simp_all add: onSubmit_resume_ok onSubmit_resume_not_ok state_ops)
  next
    case (Rejected e)
    then show ?thesis
      by (simp add: onSubmit_resume_rejected state_ops)
  qed
  moreover have "unhandled (run rx mounted evs) = []"
    by (simp add: run_unhandled mounted_def)
  ultimately show ?thesis
    by blast
qed

subsection \<open>The outcome depends on the input and the response only\<close>

text \<open>
  C10. Two attempts with the same valid field values and the same outcome of the
  request, started from any two idle states of the component, end with the same status
  and the same field values. The status is the success variant with the text
  \<^verbatim>\<open>Mensagem enviada com sucesso! Obrigado.\<close> when the response has a status from 200
  to 299, and the failure variant with the text
  \<^verbatim>\<open>Ocorreu um erro ao enviar. Tente novamente.\<close> otherwise.
\<close>

theorem attempt_is_deterministic:
  assumes "fieldValues a = d" and "fieldValues b = d"
    and "3 \<le> length (name d)" and "rx (email d)" and "10 \<le> length (message d)"
    and "\<not> isSubmitting a" and "inflight a = []"
    and "\<not> isSubmitting b" and "inflight b = []"
  shows
    "submitStatus (run rx a [Submit, Settle out]) =
       submitStatus (run rx b [Submit, Settle out]) \<and>
     fieldValues (run rx a [Submit, Settle out]) =
       fieldValues (run rx b [Submit, Settle out]) \<and>
     submitStatus (run rx a [Submit, Settle out]) =
       Some (if (case out of Fulfilled r \<Rightarrow> 200 \<le> status r \<and> status r \<le> 299
                 | Rejected e \<Rightarrow> False)
             then \<lparr>success = True,
                   status_message = str ''Mensagem enviada com sucesso! Obrigado.''\<rparr>
             else \<lparr>success = False,
                   status_message = str ''Ocorreu um erro ao enviar. Tente novamente.''\<rparr>)"
proof -
  have v: "zodResolver rx contactFormSchema d = Inr d"
    using assms(3-5) by (rule resolver_accepts)
  have r: "submitStatus (run rx s [Submit, Settle out]) =
             Some (if (case out of Fulfilled r \<Rightarrow> 200 \<le> status r \<and> status r \<le> 299
                       | Rejected e \<Rightarrow> False)
                   then \<lparr>success = True, status_message = successMessage\<rparr>
                   else \<lparr>success = False, status_message = failureMessage\<rparr>) \<and>
           fieldValues (run rx s [Submit, Settle out]) =
             (if (case out of Fulfilled r \<Rightarrow> 200 \<le> status r \<and> status r \<le> 299
                  | Rejected e \<Rightarrow> False)
              then emptyForm else d)"
    if "fieldValues s = d" "\<not> isSubmitting s" "inflight s = []" for s
  proof (cases out)
    case (Fulfilled r)
    with that v show ?thesis
      by (cases "ok r")
        (simp_all add: handleSubmit_valid onSubmit_call_def handleSubmit_settled_def
          onSubmit_resume_ok onSubmit_resume_not_ok state_ops ok_def)
  next
    case (Rejected e)
    with that v show ?thesis
      by (simp add: handleSubmit_valid onSubmit_call_def handleSubmit_settled_def
          onSubmit_resume_rejected state_ops)
  qed
  show ?thesis
    using r [OF assms(1) assms(6) assms(7)] r [OF assms(2) assms(8) assms(9)]
    by (simp add: successMessage_def failureMessage_def del: run.simps)
qed

theorem attempt_is_deterministic_witness:
  "fieldValues (mounted\<lparr>fieldValues := anaSilva\<rparr>) = anaSilva \<and>
   fieldValues (run zod_emailRegex mounted resubmitted) = anaSilva \<and>
   submitStatus (mounted\<lparr>fieldValues := anaSilva\<rparr>) \<noteq>
     submitStatus (run zod_emailRegex mounted resubmitted) \<and>
   submitStatus (run zod_emailRegex (mounted\<lparr>fieldValues := anaSilva\<rparr>)
                   [Submit, Settle (Fulfilled \<lparr>status = 204\<rparr>)]) =
     Some \<lparr>success = True,
           status_message = str ''Mensagem enviada com sucesso! Obrigado.''\<rparr> \<and>
   submitStatus (run zod_emailRegex mounted
                   (resubmitted @ [Submit, Settle (Fulfilled \<lparr>status = 204\<rparr>)])) =
     Some \<lparr>success = True,
           status_message = str ''Mensagem enviada com sucesso! Obrigado.''\<rparr> \<and>
   fieldValues (run zod_emailRegex mounted
                  (resubmitted @ [Submit, Settle (Fulfilled \<lparr>status = 204\<rparr>)])) =
     fieldValues (run zod_emailRegex (mounted\<lparr>fieldValues := anaSilva\<rparr>)
                    [Submit, Settle (Fulfilled \<lparr>status = 204\<rparr>)])"
proof -
  let ?s1 = "mounted\<lparr>fieldValues := anaSilva\<rparr>"
  let ?s2 = "run zod_emailRegex mounted resubmitted"
  have f: "fieldValues ?s1 = anaSilva" "fieldValues ?s2 = anaSilva"
    and i: "\<not> isSubmitting ?s1" "inflight ?s1 = []" "\<not> isSubmitting ?s2" "inflight ?s2 = []"
    and n: "submitStatus ?s1 \<noteq> submitStatus ?s2"
    unfolding run_resubmitted by (simp_all add: mounted_def)
  have v: "3 \<le> length (name anaSilva)" "zod_emailRegex (email anaSilva)"
    "10 \<le> length (message anaSilva)"
    by (simp_all add: anaSilva_def ana_email length_str)
  have k: "(case Fulfilled \<lparr>status = 204\<rparr> of
              Fulfilled r \<Rightarrow> 200 \<le> status r \<and> status r \<le> 299 | Rejected e \<Rightarrow> False)"
    by simp
  have "submitStatus (run zod_emailRegex ?s1 [Submit, Settle (Fulfilled \<lparr>status = 204\<rparr>)]) =
          submitStatus (run zod_emailRegex ?s2 [Submit, Settle (Fulfilled \<lparr>status = 204\<rparr>)]) \<and>
        fieldValues (run zod_emailRegex ?s1 [Submit, Settle (Fulfilled \<lparr>status = 204\<rparr>)]) =
          fieldValues (run zod_emailRegex ?s2 [Submit, Settle (Fulfilled \<lparr>status = 204\<rparr>)]) \<and>
        submitStatus (run zod_emailRegex ?s1 [Submit, Settle (Fulfilled \<lparr>status = 204\<rparr>)]) =
          Some \<lparr>success = True,
                status_message = str ''Mensagem enviada com sucesso! Obrigado.''\<rparr>"
    using k
      attempt_is_deterministic [where a = ?s1 and b = ?s2 and d = anaSilva
        and rx = zod_emailRegex and out = "Fulfilled \<lparr>status = 204\<rparr>",
        OF f v i]
    by (auto simp del: run.simps)
  then show ?thesis
    using f n unfolding run_append by (auto simp del: run.simps)
qed

end
